theory Spec2Isabelle
  imports Complex_Main
begin

section \<open>Regridding a labelled grid onto a target grid (\<^verbatim>\<open>regrid.py\<close>)\<close>

text \<open>
  The routine \<^verbatim>\<open>regrid_data\<close> takes two labelled arrays (xarray \<^verbatim>\<open>DataArray\<close>s),
  interpolates every time slab of the first onto the latitude/longitude grid of the second,
  adds zero times the first time slab of the second (so that its NaNs propagate), stores the
  slabs one by one into a freshly allocated array of shape (latitude, longitude, time) and
  wraps that array into a \<^verbatim>\<open>Dataset\<close>.

  Conventions of the embedding.
  \<^item> A cell is a \<open>real option\<close>: \<open>None\<close> is NaN (the missing marker), \<open>Some x\<close> a finite
    number. Arithmetic on cells is exact on finite numbers and NaN is absorbing, as in IEEE 754;
    rounding, overflow and infinities are outside the model.
  \<^item> The payload of an input grid is the list of its two-dimensional slabs, one per position on
    the time axis, each slab a list of rows, one row per latitude, one cell per longitude. This is
    the layout that the routine presupposes when it stores a slab into an array declared with
    the dimensions \<^verbatim>\<open>["latitude", "longitude", "time"]\<close>.
  \<^item> A grid that has no axis of some name has \<open>None\<close> for that coordinate. (An xarray dimension
    without explicit labels behaves as one labelled \<open>0, 1, 2, \<dots>\<close> and is a grid that has the
    axis.)
  \<^item> Every exception is a value of type \<open>error\<close>; the routine returns \<open>Inl e\<close> where the
    Python raises.
\<close>

subsection \<open>Errors\<close>

text \<open>
  \<open>ShapeMismatch\<close> is the class of the errors that xarray raises for an axis that is not
  there (\<^verbatim>\<open>AttributeError\<close> on \<^verbatim>\<open>.time\<close>, \<^verbatim>\<open>.latitude\<close>, \<^verbatim>\<open>.longitude\<close>;
  \<^verbatim>\<open>ValueError\<close> of \<^verbatim>\<open>interp\<close> for a dimension that does not exist).
  \<open>InterpolationError\<close> is the class of the error of the interpolation primitive on
  source coordinates that it cannot index (duplicate labels). The others are the Python
  exceptions of the same name.
\<close>

datatype error =
    ShapeMismatch
  | InterpolationError
  | IndexError
  | KeyError
  | ValueError
  | TypeError

subsection \<open>Cells\<close>

type_synonym cell = "real option"

fun cadd :: "cell \<Rightarrow> cell \<Rightarrow> cell" where
  "cadd (Some x) (Some y) = Some (x + y)"
| "cadd _ _ = None"

fun csub :: "cell \<Rightarrow> cell \<Rightarrow> cell" where
  "csub (Some x) (Some y) = Some (x - y)"
| "csub _ _ = None"

fun cmul :: "cell \<Rightarrow> cell \<Rightarrow> cell" where
  "cmul (Some x) (Some y) = Some (x * y)"
| "cmul _ _ = None"

text \<open>
  Division: \<open>0 / 0\<close> and \<open>NaN / 0\<close> are NaN. A finite non-zero number over zero would be an
  infinity; the routine divides only by differences of coordinates, and the one zero
  difference it can reach (an axis with a single point, bracketed by that point twice) has the
  numerator \<open>y - y\<close>.
\<close>

fun cdiv :: "cell \<Rightarrow> cell \<Rightarrow> cell" where
  "cdiv (Some x) (Some y) = (if y = 0 then None else Some (x / y))"
| "cdiv _ _ = None"

subsection \<open>Labelled grids and the result\<close>

type_synonym timestamp = int
type_synonym slab = "cell list list"

record data_array =
  name :: "string option"
  time :: "timestamp list option"
  latitude :: "real list option"
  longitude :: "real list option"
  data :: "slab list"

text \<open>The result: one data variable over the dimensions \<open>var_dims\<close>, and three coordinates.\<close>

record dataset =
  var_name :: string
  var_dims :: "string list"
  var_data :: "cell list list list"
  ds_latitude :: "real list"
  ds_longitude :: "real list"
  ds_time :: "timestamp list"

text \<open>
  The invariant that xarray keeps for every \<^verbatim>\<open>DataArray\<close>: the payload has one slab per
  timestamp, one row per latitude and one cell per longitude.
\<close>

definition rect :: "nat \<Rightarrow> nat \<Rightarrow> slab \<Rightarrow> bool" where
  "rect n m s \<longleftrightarrow> length s = n \<and> list_all (\<lambda>r. length r = m) s"

definition wf_grid :: "data_array \<Rightarrow> bool" where
  "wf_grid g \<longleftrightarrow>
     (case (time g, latitude g, longitude g) of
        (Some ts, Some las, Some los) \<Rightarrow>
           length (data g) = length ts \<and> list_all (rect (length las) (length los)) (data g)
      | _ \<Rightarrow> False)"

subsection \<open>Selection by label: \<^verbatim>\<open>sel(time=t)\<close>\<close>

text \<open>
  \<^verbatim>\<open>g.sel(time=t)\<close> looks the label up in the index of the time axis. A label that occurs once
  gives the slab at its position (the time dimension is dropped); a label that occurs several
  times gives all the matching slabs and the time dimension is kept. The result is the list
  of the matching slabs in both cases.
\<close>

definition sel :: "timestamp list \<Rightarrow> slab list \<Rightarrow> timestamp \<Rightarrow> slab list" where
  "sel ts slabs t = map snd (filter (\<lambda>p. fst p = t) (zip ts slabs))"

subsection \<open>Linear interpolation: \<^verbatim>\<open>interp(latitude=\<dots>, longitude=\<dots>)\<close>\<close>

text \<open>
  \<^verbatim>\<open>interp\<close> is called with its defaults: linear, \<^verbatim>\<open>assume_sorted=False\<close> (the source is
  sorted along the interpolated axes first), NaN outside the range of the source coordinates.
  The two axes are interpolated one after the other, each by the one-dimensional rule
  \<^verbatim>\<open>
    i = clip(searchsorted(x, x_new), 1, len(x) - 1);  lo = i - 1;  hi = i
    slope = (y[hi] - y[lo]) / (x[hi] - x[lo])
    y_new = slope * (x_new - x[lo]) + y[lo]
    y_new = NaN  where x_new < x[0] or x_new > x[-1]\<close>
  in which a negative index counts from the end, as in Python.
\<close>

definition searchsorted :: "real list \<Rightarrow> real \<Rightarrow> nat" where
  "searchsorted xs v = length (takeWhile (\<lambda>x. x < v) xs)"

definition clip :: "int \<Rightarrow> int \<Rightarrow> int \<Rightarrow> int" where
  "clip k lo hi = min hi (max k lo)"

definition py_nth :: "'a list \<Rightarrow> int \<Rightarrow> 'a" where
  "py_nth xs i = (if i < 0 then xs ! nat (i + int (length xs)) else xs ! nat i)"

definition interp1 :: "real list \<Rightarrow> cell list \<Rightarrow> real \<Rightarrow> cell" where
  "interp1 xs ys x_new =
     (let i = clip (int (searchsorted xs x_new)) 1 (int (length xs) - 1);
          x_lo = py_nth xs (i - 1); x_hi = py_nth xs i;
          y_lo = py_nth ys (i - 1); y_hi = py_nth ys i;
          slope = cdiv (csub y_hi y_lo) (Some (x_hi - x_lo));
          y_new = cadd (cmul slope (Some (x_new - x_lo))) y_lo
      in if x_new < hd xs \<or> x_new > last xs then None else y_new)"

text \<open>Sorting the source along an axis (\<^verbatim>\<open>sortby\<close>, a stable sort on the labels).\<close>

definition sortby :: "real list \<Rightarrow> 'a list \<Rightarrow> 'a list" where
  "sortby xs ys = map snd (sort_key fst (zip xs ys))"

definition columns :: "nat \<Rightarrow> slab \<Rightarrow> cell list list" where
  "columns m s = map (\<lambda>c. map (\<lambda>r. r ! c) s) [0..<m]"

text \<open>
  Interpolation of a slab along the latitude, giving for each new latitude the list of the
  interpolated values, one per source longitude; then along the longitude.
\<close>

definition interp_latitude :: "real list \<Rightarrow> real list \<Rightarrow> nat \<Rightarrow> slab \<Rightarrow> slab" where
  "interp_latitude slat tlat m s =
     map (\<lambda>a. map (\<lambda>col. interp1 (sort slat) (sortby slat col) a) (columns m s)) tlat"

definition interp_longitude :: "real list \<Rightarrow> real list \<Rightarrow> slab \<Rightarrow> slab" where
  "interp_longitude slon tlon s =
     map (\<lambda>row. map (\<lambda>b. interp1 (sort slon) (sortby slon row) b) tlon) s"

text \<open>
  The checks of one axis, in the order in which the primitive makes them: the smallest and
  largest new coordinate are taken (an empty array of new coordinates has none: \<^verbatim>\<open>ValueError\<close>),
  they are looked up in the index of the source axis (which must have unique labels), and the
  interpolator is built on the source axis (which must have a point).
\<close>

definition check_axis :: "real list \<Rightarrow> real list \<Rightarrow> error option" where
  "check_axis xs new_xs =
     (if new_xs = [] then Some ValueError
      else if \<not> distinct xs then Some InterpolationError
      else if xs = [] then Some ValueError
      else None)"

definition interp :: "data_array \<Rightarrow> slab \<Rightarrow> real list \<Rightarrow> real list \<Rightarrow> error + slab" where
  "interp original s target_latitude target_longitude =
     (case latitude original of None \<Rightarrow> Inl ShapeMismatch | Some slat \<Rightarrow>
     (case longitude original of None \<Rightarrow> Inl ShapeMismatch | Some slon \<Rightarrow>
     (case check_axis slat target_latitude of Some e \<Rightarrow> Inl e | None \<Rightarrow>
     (case check_axis slon target_longitude of Some e \<Rightarrow> Inl e | None \<Rightarrow>
        Inr (interp_longitude slon target_longitude
               (interp_latitude slat target_latitude (length slon) s))))))"

subsection \<open>The mask: \<^verbatim>\<open>regridded + 0 * first_date_data.data.squeeze()\<close>\<close>

text \<open>
  \<^verbatim>\<open>.data\<close> is the bare numpy array of the reference slab, without labels, and
  \<^verbatim>\<open>squeeze()\<close> removes every dimension of length one from it. The sum of the labelled
  \<open>regridded\<close> and a bare array is taken position by position under numpy's broadcasting:
  shapes are aligned at their last dimension, and a dimension of length one is stretched.
\<close>

datatype ndarray = Arr0 cell | Arr1 "cell list" | Arr2 slab

definition shape2 :: "slab \<Rightarrow> nat \<times> nat" where
  "shape2 s = (length s, if s = [] then 0 else length (hd s))"

definition squeeze :: "slab \<Rightarrow> ndarray" where
  "squeeze s =
     (let (n, m) = shape2 s in
      if n = 1 \<and> m = 1 then Arr0 (hd (hd s))
      else if n = 1 then Arr1 (hd s)
      else if m = 1 then Arr1 (map hd s)
      else Arr2 s)"

fun zero_times :: "ndarray \<Rightarrow> ndarray" where
  "zero_times (Arr0 c) = Arr0 (cmul (Some 0) c)"
| "zero_times (Arr1 cs) = Arr1 (map (cmul (Some 0)) cs)"
| "zero_times (Arr2 s) = Arr2 (map (map (cmul (Some 0))) s)"

text \<open>Broadcasting of two lengths, and reading a stretched list.\<close>

definition bc_len :: "nat \<Rightarrow> nat \<Rightarrow> nat option" where
  "bc_len a b = (if a = b then Some a else if a = 1 then Some b else if b = 1 then Some a else None)"

definition bc_nth :: "'a list \<Rightarrow> nat \<Rightarrow> 'a" where
  "bc_nth xs i = (if length xs = 1 then xs ! 0 else xs ! i)"

definition add_rows :: "cell list \<Rightarrow> cell list \<Rightarrow> error + cell list" where
  "add_rows r b =
     (case bc_len (length r) (length b) of
        None \<Rightarrow> Inl ValueError
      | Some q \<Rightarrow> Inr (map (\<lambda>j. cadd (bc_nth r j) (bc_nth b j)) [0..<q]))"

fun sequence :: "(error + 'a) list \<Rightarrow> error + 'a list" where
  "sequence [] = Inr []"
| "sequence (x # xs) =
     (case x of Inl e \<Rightarrow> Inl e
      | Inr y \<Rightarrow> (case sequence xs of Inl e \<Rightarrow> Inl e | Inr ys \<Rightarrow> Inr (y # ys)))"

fun np_add :: "slab \<Rightarrow> ndarray \<Rightarrow> error + slab" where
  "np_add s (Arr0 c) = Inr (map (map (\<lambda>x. cadd x c)) s)"
| "np_add s (Arr1 b) = sequence (map (\<lambda>r. add_rows r b) s)"
| "np_add s (Arr2 m) =
     (case bc_len (length s) (length m) of
        None \<Rightarrow> Inl ValueError
      | Some p \<Rightarrow> sequence (map (\<lambda>i. add_rows (bc_nth s i) (bc_nth m i)) [0..<p]))"

text \<open>
  The reference selection \<open>first_date_data\<close> is the list of the target's slabs at its first
  timestamp. With a single slab it is two-dimensional and the sum is the one above. With
  several (the first timestamp occurs again on the target's time axis) it keeps its time
  dimension with a length of two or more, which the squeeze leaves in place; the sum with the
  two-dimensional \<open>regridded\<close> then either cannot be broadcast or has more dimensions than
  \<open>regridded\<close> has names for, or cannot be stored into a slab of the output: \<^verbatim>\<open>ValueError\<close>.
\<close>

definition add_mask :: "slab \<Rightarrow> slab list \<Rightarrow> error + slab" where
  "add_mask regridded first_date_data =
     (case first_date_data of
        [ref] \<Rightarrow> np_add regridded (zero_times (squeeze ref))
      | _ \<Rightarrow> Inl ValueError)"

subsection \<open>The output array: \<^verbatim>\<open>np.empty\<close> and \<^verbatim>\<open>regridded_array[..., i] = regridded\<close>\<close>

text \<open>
  \<^verbatim>\<open>np.empty\<close> gives an array whose contents are not specified; the model fills it with
  zeros. The array is indexed (latitude, longitude, time).
\<close>

definition np_empty :: "nat \<Rightarrow> nat \<Rightarrow> nat \<Rightarrow> cell list list list" where
  "np_empty nlat nlon ntime = replicate nlat (replicate nlon (replicate ntime (Some 0)))"

text \<open>
  The store writes position \<open>i\<close> of the last axis of every (latitude, longitude) cell. The
  value stored must have the shape \<open>(nlat, nlon)\<close> of the slot, up to dimensions of length one
  that numpy stretches; otherwise numpy raises \<^verbatim>\<open>ValueError\<close>.
\<close>

definition fits :: "nat \<Rightarrow> nat \<Rightarrow> slab \<Rightarrow> bool" where
  "fits nlat nlon v \<longleftrightarrow>
     v \<noteq> [] \<and> (length v = nlat \<or> length v = 1) \<and>
     list_all (\<lambda>r. length r = nlon \<or> length r = 1) v"

definition store :: "nat \<Rightarrow> nat \<Rightarrow> cell list list list \<Rightarrow> nat \<Rightarrow> slab \<Rightarrow> error + cell list list list" where
  "store nlat nlon arr i v =
     (if fits nlat nlon v
      then Inr (map (\<lambda>a. map (\<lambda>b. (arr ! a ! b)[i := bc_nth (bc_nth v a) b]) [0..<nlon]) [0..<nlat])
      else Inl ValueError)"

subsection \<open>The loop over the source's timestamps\<close>

text \<open>
  One pass of the loop body, up to the store: select the source slab at the label, interpolate
  it, add the mask. A label that occurs several times on the source's time axis selects a stack
  of slabs; it is interpolated like a single one (with the same checks), and what comes out
  has one dimension more than a slab of the output, so that it cannot be stored.
\<close>

definition regrid_step ::
  "data_array \<Rightarrow> timestamp list \<Rightarrow> slab list \<Rightarrow> real list \<Rightarrow> real list \<Rightarrow> timestamp \<Rightarrow> error + slab" where
  "regrid_step input_data input_times first_date_data target_latitude target_longitude t =
     (case sel input_times (data input_data) t of
        [] \<Rightarrow> Inl KeyError
      | [original] \<Rightarrow>
          (case interp input_data original target_latitude target_longitude of
             Inl e \<Rightarrow> Inl e
           | Inr regridded \<Rightarrow> add_mask regridded first_date_data)
      | original # _ \<Rightarrow>
          (case interp input_data original target_latitude target_longitude of
             Inl e \<Rightarrow> Inl e
           | Inr regridded \<Rightarrow> Inl ValueError))"

fun regrid_loop ::
  "data_array \<Rightarrow> timestamp list \<Rightarrow> slab list \<Rightarrow> real list \<Rightarrow> real list \<Rightarrow>
   (nat \<times> timestamp) list \<Rightarrow> cell list list list \<Rightarrow> error + cell list list list" where
  "regrid_loop input_data input_times first_date_data target_latitude target_longitude [] regridded_array =
     Inr regridded_array"
| "regrid_loop input_data input_times first_date_data target_latitude target_longitude ((i, t) # rest)
     regridded_array =
     (case regrid_step input_data input_times first_date_data target_latitude target_longitude t of
        Inl e \<Rightarrow> Inl e
      | Inr regridded \<Rightarrow>
          (case store (length target_latitude) (length target_longitude) regridded_array i regridded of
             Inl e \<Rightarrow> Inl e
           | Inr regridded_array' \<Rightarrow>
               regrid_loop input_data input_times first_date_data target_latitude target_longitude rest
                 regridded_array'))"

subsection \<open>\<^verbatim>\<open>regrid_data\<close>\<close>

text \<open>
  Lines 38 to 57: the reference slab and the target coordinates, the allocation, the loop.
  The result is the filled array.
\<close>

definition regrid_array :: "data_array \<Rightarrow> data_array \<Rightarrow> error + cell list list list" where
  "regrid_array input_data target_data =
     (case time target_data of None \<Rightarrow> Inl ShapeMismatch | Some target_times \<Rightarrow>
     (case target_times of [] \<Rightarrow> Inl IndexError | t0 # _ \<Rightarrow>
     (let first_date_data = sel target_times (data target_data) t0 in
     (case latitude target_data of None \<Rightarrow> Inl ShapeMismatch | Some target_latitude \<Rightarrow>
     (case longitude target_data of None \<Rightarrow> Inl ShapeMismatch | Some target_longitude \<Rightarrow>
     (case time input_data of None \<Rightarrow> Inl ShapeMismatch | Some input_times \<Rightarrow>
        regrid_loop input_data input_times first_date_data target_latitude target_longitude
          (enumerate 0 input_times)
          (np_empty (length target_latitude) (length target_longitude) (length input_times))))))))"

text \<open>
  Lines 60 to 73: the name of the variable is \<^verbatim>\<open>input_data.name + "_REGRIDDED"\<close>, which is a
  \<^verbatim>\<open>TypeError\<close> when the name is \<^verbatim>\<open>None\<close>; the coordinates are read from the two inputs.
\<close>

definition assemble :: "data_array \<Rightarrow> data_array \<Rightarrow> cell list list list \<Rightarrow> error + dataset" where
  "assemble input_data target_data regridded_array =
     (case name input_data of None \<Rightarrow> Inl TypeError | Some n \<Rightarrow>
     (case latitude target_data of None \<Rightarrow> Inl KeyError | Some target_latitude \<Rightarrow>
     (case longitude target_data of None \<Rightarrow> Inl KeyError | Some target_longitude \<Rightarrow>
     (case time input_data of None \<Rightarrow> Inl KeyError | Some input_times \<Rightarrow>
        Inr \<lparr> var_name = n @ ''_REGRIDDED'',
              var_dims = [''latitude'', ''longitude'', ''time''],
              var_data = regridded_array,
              ds_latitude = target_latitude,
              ds_longitude = target_longitude,
              ds_time = input_times \<rparr>))))"

definition regrid_data :: "data_array \<Rightarrow> data_array \<Rightarrow> error + dataset" where
  "regrid_data input_data target_data =
     (case regrid_array input_data target_data of
        Inl e \<Rightarrow> Inl e
      | Inr regridded_array \<Rightarrow> assemble input_data target_data regridded_array)"

subsection \<open>The routine on a store of objects\<close>

text \<open>
  To speak about what the routine changes, the same statements are read once more over a
  store of Python objects: a list of objects, an object's reference being its position. The
  two inputs are references to grids in the store. Selection, interpolation, the product with
  zero and the sum build new values and write nothing (\<^verbatim>\<open>squeeze\<close> gives a view of the
  target's array, and \<^verbatim>\<open>0 * view\<close> a new array). \<^verbatim>\<open>np.empty\<close> allocates a new array, the
  store \<^verbatim>\<open>regridded_array[..., i] = regridded\<close> is the one statement that writes into an
  existing object, and \<^verbatim>\<open>xr.Dataset\<close> allocates the result. The progress bar is left out.
\<close>

datatype pyobj = Grid data_array | Buffer "cell list list list" | Result dataset

type_synonym heap = "pyobj list"

text \<open>Allocation puts the new object at the end of the store and gives its reference.\<close>

definition alloc :: "heap \<Rightarrow> pyobj \<Rightarrow> heap \<times> nat" where
  "alloc h obj = (h @ [obj], length h)"

fun regrid_loop_heap ::
  "data_array \<Rightarrow> timestamp list \<Rightarrow> slab list \<Rightarrow> real list \<Rightarrow> real list \<Rightarrow> nat \<Rightarrow>
   (nat \<times> timestamp) list \<Rightarrow> heap \<Rightarrow> heap \<times> error option" where
  "regrid_loop_heap input_data input_times first_date_data target_latitude target_longitude
     regridded_array [] h = (h, None)"
| "regrid_loop_heap input_data input_times first_date_data target_latitude target_longitude
     regridded_array ((i, t) # rest) h =
     (case regrid_step input_data input_times first_date_data target_latitude target_longitude t of
        Inl e \<Rightarrow> (h, Some e)
      | Inr regridded \<Rightarrow>
          (case h ! regridded_array of
             Buffer arr \<Rightarrow>
               (case store (length target_latitude) (length target_longitude) arr i regridded of
                  Inl e \<Rightarrow> (h, Some e)
                | Inr arr' \<Rightarrow>
                    regrid_loop_heap input_data input_times first_date_data target_latitude
                      target_longitude regridded_array rest (h[regridded_array := Buffer arr']))
           | _ \<Rightarrow> (h, Some TypeError)))"

definition regrid_data_heap :: "nat \<Rightarrow> nat \<Rightarrow> heap \<Rightarrow> heap \<times> (error + nat)" where
  "regrid_data_heap input_ref target_ref h =
     (case (h ! input_ref, h ! target_ref) of
        (Grid input_data, Grid target_data) \<Rightarrow>
     (case time target_data of None \<Rightarrow> (h, Inl ShapeMismatch) | Some target_times \<Rightarrow>
     (case target_times of [] \<Rightarrow> (h, Inl IndexError) | t0 # _ \<Rightarrow>
     (let first_date_data = sel target_times (data target_data) t0 in
     (case latitude target_data of None \<Rightarrow> (h, Inl ShapeMismatch) | Some target_latitude \<Rightarrow>
     (case longitude target_data of None \<Rightarrow> (h, Inl ShapeMismatch) | Some target_longitude \<Rightarrow>
     (case time input_data of None \<Rightarrow> (h, Inl ShapeMismatch) | Some input_times \<Rightarrow>
     (let (h1, regridded_array) =
            alloc h (Buffer (np_empty (length target_latitude) (length target_longitude)
                               (length input_times))) in
     (case regrid_loop_heap input_data input_times first_date_data target_latitude
             target_longitude regridded_array (enumerate 0 input_times) h1 of
        (h2, Some e) \<Rightarrow> (h2, Inl e)
      | (h2, None) \<Rightarrow>
          (case h2 ! regridded_array of
             Buffer arr \<Rightarrow>
               (case assemble input_data target_data arr of
                  Inl e \<Rightarrow> (h2, Inl e)
                | Inr regridded_data \<Rightarrow>
                    (let (h3, result_ref) = alloc h2 (Result regridded_data)
                     in (h3, Inr result_ref)))
           | _ \<Rightarrow> (h2, Inl TypeError))))))))))
      | _ \<Rightarrow> (h, Inl TypeError))"

subsection \<open>Auxiliary notions for the statements\<close>

text \<open>The shape of a three-dimensional array held as nested lists.\<close>

definition shape3 :: "nat \<Rightarrow> nat \<Rightarrow> nat \<Rightarrow> cell list list list \<Rightarrow> bool" where
  "shape3 n m k arr \<longleftrightarrow>
     length arr = n \<and> list_all (\<lambda>row. length row = m \<and> list_all (\<lambda>c. length c = k) row) arr"

text \<open>
  The slab that the mask step yields when the bare reference array lines up with the
  interpolated slab cell for cell.
\<close>

definition masked :: "slab \<Rightarrow> slab \<Rightarrow> nat \<Rightarrow> nat \<Rightarrow> slab" where
  "masked regridded ref n m =
     map (\<lambda>a. map (\<lambda>b. cadd (regridded ! a ! b) (cmul (Some 0) (ref ! a ! b))) [0..<m]) [0..<n]"

text \<open>
  The two interpolation passes together, and the condition on the four spatial axes under
  which the checks of \<open>interp\<close> pass.
\<close>

definition interp2 :: "real list \<Rightarrow> real list \<Rightarrow> real list \<Rightarrow> real list \<Rightarrow> slab \<Rightarrow> slab" where
  "interp2 slat slon tlat tlon s =
     interp_longitude slon tlon (interp_latitude slat tlat (length slon) s)"

definition axes_ok :: "real list \<Rightarrow> real list \<Rightarrow> real list \<Rightarrow> real list \<Rightarrow> bool" where
  "axes_ok slat slon tlat tlon \<longleftrightarrow>
     tlat \<noteq> [] \<and> distinct slat \<and> slat \<noteq> [] \<and> tlon \<noteq> [] \<and> distinct slon \<and> slon \<noteq> []"

text \<open>
  The condition under which every pass of the loop goes through, on grids that have the
  shape of their axes: no pass at all, or distinct source timestamps, a first target
  timestamp that does not occur again, axes that pass the checks of \<open>interp\<close>, and a
  target that is not a single column of two or more rows.
\<close>

definition steps_ok ::
  "timestamp list \<Rightarrow> timestamp list \<Rightarrow> real list \<Rightarrow> real list \<Rightarrow> real list \<Rightarrow> real list \<Rightarrow> bool" where
  "steps_ok ts tts slat slon tlat tlon \<longleftrightarrow>
     ts = [] \<or>
     (distinct ts \<and> hd tts \<notin> set (tl tts) \<and> axes_ok slat slon tlat tlon \<and>
      \<not> (length tlon = 1 \<and> 2 \<le> length tlat))"

text \<open>The array that the loop leaves behind, as a function of the inputs.\<close>

definition regrid_cells ::
  "timestamp list \<Rightarrow> real list \<Rightarrow> real list \<Rightarrow> real list \<Rightarrow> real list \<Rightarrow> slab list \<Rightarrow> slab \<Rightarrow>
   cell list list list" where
  "regrid_cells ts slat slon tlat tlon slabs ref =
     map (\<lambda>a. map (\<lambda>b. map (\<lambda>i.
            cadd (interp2 slat slon tlat tlon (slabs ! i) ! a ! b) (cmul (Some 0) (ref ! a ! b)))
          [0..<length ts]) [0..<length tlon]) [0..<length tlat]"

text \<open>The slab of the result at position \<open>i\<close> of the time axis: \<^verbatim>\<open>result[:, :, i]\<close>.\<close>

definition time_slice :: "dataset \<Rightarrow> nat \<Rightarrow> slab" where
  "time_slice r i = map (map (\<lambda>c. c ! i)) (var_data r)"


text \<open>
  A grid with its time axis, and its payload with it, rearranged by a list \<open>p\<close> of
  positions; and a result with its time axis rearranged in the same way.
\<close>

definition permute_time :: "nat list \<Rightarrow> data_array \<Rightarrow> data_array" where
  "permute_time p g =
     g\<lparr> time := map_option (\<lambda>ts. map (\<lambda>k. ts ! k) p) (time g),
        data := map (\<lambda>k. data g ! k) p \<rparr>"

definition permute_result :: "nat list \<Rightarrow> dataset \<Rightarrow> dataset" where
  "permute_result p r =
     r\<lparr> ds_time := map (\<lambda>k. ds_time r ! k) p,
        var_data := map (map (\<lambda>c. map (\<lambda>k. c ! k) p)) (var_data r) \<rparr>"



text \<open>
  A valid pair: two grids that have the three axes and the shape of their axes, a source that
  has a name, a target that has a timestamp, and a loop that goes through.
\<close>

definition valid_pair :: "data_array \<Rightarrow> data_array \<Rightarrow> bool" where
  "valid_pair s t \<longleftrightarrow>
     wf_grid s \<and> wf_grid t \<and> name s \<noteq> None \<and>
     (case (time s, latitude s, longitude s) of
        (Some ts, Some slat, Some slon) \<Rightarrow>
          (case (time t, latitude t, longitude t) of
             (Some tts, Some tlat, Some tlon) \<Rightarrow>
                tts \<noteq> [] \<and> steps_ok ts tts slat slon tlat tlon
           | _ \<Rightarrow> False)
      | _ \<Rightarrow> False)"

subsection \<open>Example grids\<close>

definition ex_source :: data_array where
  "ex_source = \<lparr> name = Some ''PM25_CMIP'', time = Some [2000, 2001],
       latitude = Some [0, 1], longitude = Some [0, 1],
       data = [[[Some 1, Some 2], [Some 3, Some 4]], [[Some 5, Some 6], [Some 7, Some 8]]] \<rparr>"

definition ex_target :: data_array where
  "ex_target = \<lparr> name = Some ''PM25_VAND'', time = Some [1998],
       latitude = Some [0, 1], longitude = Some [0, 1],
       data = [[[Some 1, Some 1], [None, Some 1]]] \<rparr>"

definition ex_result :: dataset where
  "ex_result = \<lparr>var_name = ''PM25_CMIP_REGRIDDED'',
        var_dims = [''latitude'', ''longitude'', ''time''],
        var_data = [[[Some 1, Some 5], [Some 2, Some 6]], [[None, None], [Some 4, Some 8]]],
        ds_latitude = [0, 1], ds_longitude = [0, 1], ds_time = [2000, 2001]\<rparr>"









text \<open>A store that holds the two example grids.\<close>

definition ex_heap :: heap where
  "ex_heap = [Grid ex_source, Grid ex_target]"




section \<open>Properties\<close>

subsection \<open>The store and the loop\<close>

lemma shape3_nth:
  "shape3 n m k arr \<Longrightarrow> a < n \<Longrightarrow> length (arr ! a) = m"
  "shape3 n m k arr \<Longrightarrow> a < n \<Longrightarrow> b < m \<Longrightarrow> length (arr ! a ! b) = k"
  by (auto simp: shape3_def list_all_length)

lemma shape3_np_empty: "shape3 n m k (np_empty n m k)"
  by (simp add: shape3_def np_empty_def list_all_length)

lemma store_shape:
  "shape3 n m k arr \<Longrightarrow> store n m arr i v = Inr arr' \<Longrightarrow> shape3 n m k arr'"
  by (auto simp: store_def shape3_def list_all_length split: if_splits)

lemma store_nth:
  "store n m arr i v = Inr arr' \<Longrightarrow> a < n \<Longrightarrow> b < m \<Longrightarrow>
   arr' ! a ! b = (arr ! a ! b)[i := bc_nth (bc_nth v a) b]"
  by (auto simp: store_def split: if_splits)

lemma store_fits: "store n m arr i v = Inr arr' \<Longrightarrow> fits n m v"
  by (auto simp: store_def split: if_splits)

lemma store_total: "fits n m v \<Longrightarrow> \<exists>arr'. store n m arr i v = Inr arr'"
  by (simp add: store_def)

lemma regrid_loop_inv:
  "regrid_loop s ts first tlat tlon (enumerate k taus) arr = Inr arr' \<Longrightarrow>
   shape3 (length tlat) (length tlon) nt arr \<Longrightarrow> k + length taus \<le> nt \<Longrightarrow>
   shape3 (length tlat) (length tlon) nt arr' \<and>
   (\<forall>j<length taus. \<exists>v. regrid_step s ts first tlat tlon (taus ! j) = Inr v \<and>
        fits (length tlat) (length tlon) v \<and>
        (\<forall>a<length tlat. \<forall>b<length tlon. arr' ! a ! b ! (k + j) = bc_nth (bc_nth v a) b)) \<and>
   (\<forall>a<length tlat. \<forall>b<length tlon. \<forall>i<k. arr' ! a ! b ! i = arr ! a ! b ! i)"
proof (induction taus arbitrary: k arr)
  case Nil
  then show ?case by simp
next
  case (Cons tau taus)
  let ?n = "length tlat" and ?m = "length tlon"
  from Cons.prems(1) obtain v arr1 where
    step: "regrid_step s ts first tlat tlon tau = Inr v" and
    st: "store ?n ?m arr k v = Inr arr1" and
    rest: "regrid_loop s ts first tlat tlon (enumerate (Suc k) taus) arr1 = Inr arr'"
    by (auto split: sum.splits)
  have sh1: "shape3 ?n ?m nt arr1" using store_shape[OF Cons.prems(2) st] .
  have le: "Suc k + length taus \<le> nt" using Cons.prems(3) by simp
  note IH = Cons.IH[OF rest sh1 le]
  have cell_k: "arr' ! a ! b ! k = bc_nth (bc_nth v a) b" if "a < ?n" "b < ?m" for a b
  proof -
    have "arr' ! a ! b ! k = arr1 ! a ! b ! k" using IH that by simp
    also have "\<dots> = (arr ! a ! b)[k := bc_nth (bc_nth v a) b] ! k"
      using store_nth[OF st that] by simp
    also have "\<dots> = bc_nth (bc_nth v a) b"
      using shape3_nth(2)[OF Cons.prems(2) that] Cons.prems(3) by simp
    finally show ?thesis .
  qed
  have cell_old: "arr' ! a ! b ! i = arr ! a ! b ! i" if "a < ?n" "b < ?m" "i < k" for a b i
  proof -
    have "arr' ! a ! b ! i = arr1 ! a ! b ! i" using IH that by simp
    also have "\<dots> = arr ! a ! b ! i"
      using store_nth[OF st that(1,2)] that(3) by simp
    finally show ?thesis .
  qed
  have steps: "\<exists>w. regrid_step s ts first tlat tlon ((tau # taus) ! j) = Inr w \<and>
        fits ?n ?m w \<and> (\<forall>a<?n. \<forall>b<?m. arr' ! a ! b ! (k + j) = bc_nth (bc_nth w a) b)"
    if "j < length (tau # taus)" for j
  proof (cases j)
    case 0
    then show ?thesis using step store_fits[OF st] cell_k by auto
  next
    case (Suc j')
    then have "j' < length taus" using that by simp
    then show ?thesis using IH Suc by auto
  qed
  show ?case using IH steps cell_old by blast
qed

lemma regrid_loop_total:
  "\<forall>tau\<in>set taus. \<exists>v. regrid_step s ts first tlat tlon tau = Inr v \<and>
       fits (length tlat) (length tlon) v \<Longrightarrow>
   \<exists>arr'. regrid_loop s ts first tlat tlon (enumerate k taus) arr = Inr arr'"
proof (induction taus arbitrary: k arr)
  case Nil
  then show ?case by simp
next
  case (Cons tau taus)
  then obtain v where v: "regrid_step s ts first tlat tlon tau = Inr v"
    "fits (length tlat) (length tlon) v" by auto
  obtain arr1 where "store (length tlat) (length tlon) arr k v = Inr arr1"
    using store_total[OF v(2)] by blast
  then show ?case using v Cons by simp
qed

subsection \<open>The mask: squeeze and broadcasting\<close>

lemma rect_nth: "rect n m s \<Longrightarrow> a < n \<Longrightarrow> length (s ! a) = m"
  by (simp add: rect_def list_all_length)

lemma rect_length: "rect n m s \<Longrightarrow> length s = n"
  by (simp add: rect_def)

lemma rect_masked: "rect n m (masked x r n m)"
  by (simp add: rect_def masked_def list_all_length)

lemma bc_nth_eq: "i < length xs \<Longrightarrow> bc_nth xs i = xs ! i"
  by (auto simp: bc_nth_def)

lemma sequence_map_Inr:
  "(\<And>x. x \<in> set xs \<Longrightarrow> f x = Inr (g x)) \<Longrightarrow> sequence (map f xs) = Inr (map g xs)"
  by (induction xs) auto

lemma add_rows_same:
  "length r = length b \<Longrightarrow>
   add_rows r b = Inr (map (\<lambda>j. cadd (r ! j) (b ! j)) [0..<length r])"
  by (simp add: add_rows_def bc_len_def bc_nth_eq)

lemma add_rows_stretch:
  "length r = 1 \<Longrightarrow> length b \<noteq> 1 \<Longrightarrow>
   add_rows r b = Inr (map (\<lambda>j. cadd (r ! 0) (b ! j)) [0..<length b])"
  by (auto simp: add_rows_def bc_len_def bc_nth_def)

lemma shape2_rect: "rect n m s \<Longrightarrow> 0 < n \<Longrightarrow> shape2 s = (n, m)"
  by (cases s) (auto simp: shape2_def rect_def)

lemma np_add_aligned:
  assumes x: "rect n m x" and r: "rect n m r" and n: "0 < n" and m: "0 < m"
    and ok: "\<not> (m = 1 \<and> 2 \<le> n)"
  shows "np_add x (zero_times (squeeze r)) = Inr (masked x r n m)"
proof -
  have sh: "shape2 r = (n, m)" using shape2_rect[OF r n] .
  have lx: "length x = n" and lr: "length r = n" using x r by (simp_all add: rect_def)
  have rowx: "length (x ! a) = m" if "a < n" for a using rect_nth[OF x that] .
  have rowr: "length (r ! a) = m" if "a < n" for a using rect_nth[OF r that] .
  consider (one) "n = 1" "m = 1" | (row) "n = 1" "m \<noteq> 1" | (full) "n \<noteq> 1" "m \<noteq> 1"
    using ok n by fastforce
  then show ?thesis
  proof cases
    case one
    then have sq: "squeeze r = Arr0 (hd (hd r))" by (simp add: squeeze_def sh)
    have hd: "hd (hd r) = r ! 0 ! 0" using lr rowr[of 0] one
      by (cases r; cases "hd r") auto
    show ?thesis using lx rowx one
      by (auto simp: sq hd masked_def intro!: nth_equalityI)
  next
    case row
    then have sq: "squeeze r = Arr1 (hd r)" by (simp add: squeeze_def sh)
    have hd: "hd r = r ! 0" using lr row by (cases r) auto
    have "np_add x (zero_times (squeeze r)) =
          sequence (map (\<lambda>xr. add_rows xr (map (cmul (Some 0)) (r ! 0))) x)"
      by (simp add: sq hd)
    also have "\<dots> = Inr (map (\<lambda>xr. map (\<lambda>j. cadd (xr ! j) (map (cmul (Some 0)) (r ! 0) ! j)) [0..<m]) x)"
    proof (rule sequence_map_Inr)
      fix xr assume "xr \<in> set x"
      then have "length xr = m" using x by (auto simp: rect_def list_all_iff)
      then show "add_rows xr (map (cmul (Some 0)) (r ! 0)) =
           Inr (map (\<lambda>j. cadd (xr ! j) (map (cmul (Some 0)) (r ! 0) ! j)) [0..<m])"
        using add_rows_same[of xr "map (cmul (Some 0)) (r ! 0)"] rowr[of 0] row by simp
    qed
    also have "map (\<lambda>xr. map (\<lambda>j. cadd (xr ! j) (map (cmul (Some 0)) (r ! 0) ! j)) [0..<m]) x
         = masked x r n m"
      using lx row rowr[of 0] by (auto simp: masked_def intro!: nth_equalityI)
    finally show ?thesis .
  next
    case full
    then have sq: "squeeze r = Arr2 r" by (simp add: squeeze_def sh)
    have "np_add x (zero_times (squeeze r)) =
          sequence (map (\<lambda>i. add_rows (bc_nth x i) (bc_nth (map (map (cmul (Some 0))) r) i)) [0..<n])"
      by (simp add: sq lx lr bc_len_def)
    also have "\<dots> = Inr (map (\<lambda>a. map (\<lambda>b. cadd (x ! a ! b) (cmul (Some 0) (r ! a ! b))) [0..<m]) [0..<n])"
    proof (rule sequence_map_Inr)
      fix a assume "a \<in> set [0..<n]"
      then have a: "a < n" by simp
      have "add_rows (x ! a) (map (cmul (Some 0)) (r ! a)) =
          Inr (map (\<lambda>j. cadd (x ! a ! j) (map (cmul (Some 0)) (r ! a) ! j)) [0..<m])"
        using add_rows_same[of "x ! a" "map (cmul (Some 0)) (r ! a)"] rowx[OF a] rowr[OF a] by simp
      also have "map (\<lambda>j. cadd (x ! a ! j) (map (cmul (Some 0)) (r ! a) ! j)) [0..<m] =
           map (\<lambda>b. cadd (x ! a ! b) (cmul (Some 0) (r ! a ! b))) [0..<m]"
        using rowr[OF a] by simp
      finally show "add_rows (bc_nth x a) (bc_nth (map (map (cmul (Some 0))) r) a) =
          Inr (map (\<lambda>b. cadd (x ! a ! b) (cmul (Some 0) (r ! a ! b))) [0..<m])"
        using a lx lr by (simp add: bc_nth_eq)
    qed
    finally show ?thesis by (simp add: masked_def)
  qed
qed

lemma np_add_misaligned:
  assumes x: "rect n 1 x" and r: "rect n 1 r" and n: "2 \<le> n"
  shows "\<exists>v. np_add x (zero_times (squeeze r)) = Inr v \<and> \<not> fits n 1 v"
proof -
  have sh: "shape2 r = (n, 1)" using shape2_rect[OF r] n by simp
  have lx: "length x = n" and lr: "length r = n" using x r by (simp_all add: rect_def)
  have sq: "squeeze r = Arr1 (map hd r)" using n by (simp add: squeeze_def sh)
  let ?b = "map (cmul (Some 0)) (map hd r)"
  let ?v = "map (\<lambda>xr. map (\<lambda>j. cadd (xr ! 0) (?b ! j)) [0..<n]) x"
  have "np_add x (zero_times (squeeze r)) = sequence (map (\<lambda>xr. add_rows xr ?b) x)"
    by (simp add: sq)
  also have "\<dots> = Inr ?v"
  proof (rule sequence_map_Inr)
    fix xr assume "xr \<in> set x"
    then have "length xr = 1" using x by (auto simp: rect_def list_all_iff)
    then show "add_rows xr ?b = Inr (map (\<lambda>j. cadd (xr ! 0) (?b ! j)) [0..<n])"
      using add_rows_stretch[of xr ?b] lr n by simp
  qed
  finally have eq: "np_add x (zero_times (squeeze r)) = Inr ?v" .
  have "\<not> fits n 1 ?v" using n lx by (cases x) (auto simp: fits_def)
  with eq show ?thesis by blast
qed

subsection \<open>Selection, interpolation and one pass of the loop\<close>

lemma rect_interp2: "rect (length tlat) (length tlon) (interp2 slat slon tlat tlon s)"
  by (simp add: interp2_def interp_longitude_def interp_latitude_def rect_def list_all_length)

lemma interp_Inr_iff:
  "interp g s tlat tlon = Inr v \<longleftrightarrow>
   (\<exists>slat slon. latitude g = Some slat \<and> longitude g = Some slon \<and>
      axes_ok slat slon tlat tlon \<and> v = interp2 slat slon tlat tlon s)"
  by (auto simp: interp_def check_axis_def axes_ok_def interp2_def split: option.splits if_splits)

lemma sel_length:
  "length slabs = length ts \<Longrightarrow> length (sel ts slabs t) = length (filter (\<lambda>x. x = t) ts)"
  by (induction ts slabs rule: list_induct2') (auto simp: sel_def)

lemma sel_mem:
  "i < length ts \<Longrightarrow> length slabs = length ts \<Longrightarrow> slabs ! i \<in> set (sel ts slabs (ts ! i))"
proof -
  assume a: "i < length ts" "length slabs = length ts"
  then have "(ts ! i, slabs ! i) \<in> set (zip ts slabs)"
    by (auto simp: set_zip)
  then show ?thesis by (force simp: sel_def)
qed

lemma filter_eq_single_distinct:
  "(\<And>i. i < length ts \<Longrightarrow> length (filter (\<lambda>x. x = ts ! i) ts) = 1) \<Longrightarrow> distinct ts"
proof (induction ts)
  case Nil
  then show ?case by simp
next
  case (Cons t ts)
  have t: "t \<notin> set ts"
  proof
    assume "t \<in> set ts"
    then have "filter (\<lambda>x. x = t) ts \<noteq> []" by (auto simp: filter_empty_conv)
    then have "length (filter (\<lambda>x. x = (t # ts) ! 0) (t # ts)) \<noteq> 1" by simp
    with Cons.prems[of 0] show False by simp
  qed
  have "length (filter (\<lambda>x. x = ts ! i) ts) = 1" if "i < length ts" for i
  proof -
    have "ts ! i \<noteq> t" using t that by auto
    then show ?thesis using Cons.prems[of "Suc i"] that by simp
  qed
  then have "distinct ts" by (rule Cons.IH)
  with t show ?case by simp
qed

lemma distinct_filter_single:
  "distinct ts \<Longrightarrow> i < length ts \<Longrightarrow> length (filter (\<lambda>x. x = ts ! i) ts) = 1"
proof (induction ts arbitrary: i)
  case Nil
  then show ?case by simp
next
  case (Cons t ts)
  show ?case
  proof (cases i)
    case 0
    have "filter (\<lambda>x. x = t) ts = []" using Cons.prems(1) by (auto simp: filter_empty_conv)
    then show ?thesis using 0 by simp
  next
    case (Suc j)
    then have "ts ! j \<noteq> t" using Cons.prems by auto
    then show ?thesis using Suc Cons by simp
  qed
qed

lemma sel_distinct:
  assumes "distinct ts" "i < length ts" "length slabs = length ts"
  shows "sel ts slabs (ts ! i) = [slabs ! i]"
proof -
  have "length (sel ts slabs (ts ! i)) = 1"
    using sel_length[OF assms(3)] distinct_filter_single[OF assms(1,2)] by simp
  then obtain x where x: "sel ts slabs (ts ! i) = [x]"
    by (cases "sel ts slabs (ts ! i)") auto
  with sel_mem[OF assms(2,3)] show ?thesis by simp
qed

lemma sel_single:
  assumes "sel ts slabs (ts ! i) = [x]" "i < length ts" "length slabs = length ts"
  shows "x = slabs ! i" "length (filter (\<lambda>y. y = ts ! i) ts) = 1"
  using sel_mem[OF assms(2,3)] sel_length[OF assms(3), of "ts ! i"] assms(1) by auto

lemma sel_first:
  "length slabs = length (t0 # ts) \<Longrightarrow>
   (\<exists>ref. sel (t0 # ts) slabs t0 = [ref]) \<longleftrightarrow> t0 \<notin> set ts"
proof -
  assume l: "length slabs = length (t0 # ts)"
  have "length (sel (t0 # ts) slabs t0) = Suc (length (filter (\<lambda>x. x = t0) ts))"
    using sel_length[OF l, of t0] by simp
  moreover have "(\<exists>ref. sel (t0 # ts) slabs t0 = [ref]) \<longleftrightarrow> length (sel (t0 # ts) slabs t0) = 1"
    by (cases "sel (t0 # ts) slabs t0") auto
  ultimately show ?thesis by (auto simp: filter_empty_conv)
qed

lemma sel_first_hd:
  "length slabs = length (t0 # ts) \<Longrightarrow> sel (t0 # ts) slabs t0 = [ref] \<Longrightarrow> ref = hd slabs"
  using sel_single(1)[of "t0 # ts" slabs 0 ref] by (cases slabs) auto

lemma regrid_step_Inr:
  "regrid_step s ts first tlat tlon tau = Inr v \<longleftrightarrow>
   (\<exists>original ref regridded. sel ts (data s) tau = [original] \<and> first = [ref] \<and>
      interp s original tlat tlon = Inr regridded \<and>
      np_add regridded (zero_times (squeeze ref)) = Inr v)"
  by (auto simp: regrid_step_def add_mask_def split: list.splits sum.splits)

lemma wf_gridD:
  assumes "wf_grid g" "time g = Some ts" "latitude g = Some las" "longitude g = Some los"
  shows "length (data g) = length ts"
    and "i < length ts \<Longrightarrow> rect (length las) (length los) (data g ! i)"
  using assms by (auto simp: wf_grid_def list_all_length)

lemma wf_grid_hd:
  assumes "wf_grid g" "time g = Some ts" "latitude g = Some las" "longitude g = Some los"
    and "ts \<noteq> []"
  shows "rect (length las) (length los) (hd (data g))"
proof -
  have "data g \<noteq> []" using wf_gridD(1)[OF assms(1-4)] assms(5) by auto
  then have "hd (data g) = data g ! 0" by (simp add: hd_conv_nth)
  then show ?thesis using wf_gridD(2)[OF assms(1-4), of 0] assms(5) by simp
qed

lemma fits_rect: "rect n m v \<Longrightarrow> 0 < n \<Longrightarrow> fits n m v"
  by (auto simp: fits_def rect_def list_all_iff)

lemma masked_nth:
  "a < n \<Longrightarrow> b < m \<Longrightarrow> masked x r n m ! a ! b = cadd (x ! a ! b) (cmul (Some 0) (r ! a ! b))"
  by (simp add: masked_def)

lemma shape3_regrid_cells:
  "shape3 (length tlat) (length tlon) (length ts) (regrid_cells ts slat slon tlat tlon slabs ref)"
  by (simp add: shape3_def regrid_cells_def list_all_length)

lemma shape3_eqI:
  assumes "shape3 n m k x" "shape3 n m k y"
    and "\<And>a b i. a < n \<Longrightarrow> b < m \<Longrightarrow> i < k \<Longrightarrow> x ! a ! b ! i = y ! a ! b ! i"
  shows "x = y"
proof (rule nth_equalityI)
  show "length x = length y" using assms(1,2) by (simp add: shape3_def)
next
  fix a assume "a < length x"
  then have a: "a < n" using assms(1) by (simp add: shape3_def)
  show "x ! a = y ! a"
  proof (rule nth_equalityI)
    show "length (x ! a) = length (y ! a)" using shape3_nth(1)[OF _ a] assms(1,2) by simp
  next
    fix b assume "b < length (x ! a)"
    then have b: "b < m" using shape3_nth(1)[OF assms(1) a] by simp
    show "x ! a ! b = y ! a ! b"
    proof (rule nth_equalityI)
      show "length (x ! a ! b) = length (y ! a ! b)"
        using shape3_nth(2)[OF _ a b] assms(1,2) by simp
    next
      fix i assume "i < length (x ! a ! b)"
      then have "i < k" using shape3_nth(2)[OF assms(1) a b] by simp
      then show "x ! a ! b ! i = y ! a ! b ! i" using assms(3) a b by simp
    qed
  qed
qed

text \<open>One pass of the loop, on grids that have the shape of their axes.\<close>

lemma regrid_step_ok:
  assumes s: "wf_grid s" "time s = Some ts" "latitude s = Some slat" "longitude s = Some slon"
    and ref: "rect (length tlat) (length tlon) ref"
    and ok: "distinct ts" "axes_ok slat slon tlat tlon" "\<not> (length tlon = 1 \<and> 2 \<le> length tlat)"
    and i: "i < length ts"
  shows "regrid_step s ts [ref] tlat tlon (ts ! i) =
           Inr (masked (interp2 slat slon tlat tlon (data s ! i)) ref (length tlat) (length tlon))"
proof -
  have sel: "sel ts (data s) (ts ! i) = [data s ! i]"
    using sel_distinct[OF ok(1) i wf_gridD(1)[OF s]] .
  have int: "interp s (data s ! i) tlat tlon = Inr (interp2 slat slon tlat tlon (data s ! i))"
    using s(3,4) ok(2) by (simp add: interp_Inr_iff)
  have pos: "0 < length tlat" "0 < length tlon" using ok(2) by (simp_all add: axes_ok_def)
  have "np_add (interp2 slat slon tlat tlon (data s ! i)) (zero_times (squeeze ref)) =
        Inr (masked (interp2 slat slon tlat tlon (data s ! i)) ref (length tlat) (length tlon))"
    using np_add_aligned[OF rect_interp2 ref pos ok(3)] .
  then show ?thesis using sel int by (simp add: regrid_step_Inr)
qed

lemma regrid_step_inv:
  assumes s: "wf_grid s" "time s = Some ts" "latitude s = Some slat" "longitude s = Some slon"
    and first: "\<And>ref. first = [ref] \<Longrightarrow> rect (length tlat) (length tlon) ref"
    and i: "i < length ts"
    and step: "regrid_step s ts first tlat tlon (ts ! i) = Inr v"
    and fits: "fits (length tlat) (length tlon) v"
  shows "length (filter (\<lambda>y. y = ts ! i) ts) = 1"
    and "axes_ok slat slon tlat tlon"
    and "\<not> (length tlon = 1 \<and> 2 \<le> length tlat)"
    and "\<exists>ref. first = [ref] \<and>
           v = masked (interp2 slat slon tlat tlon (data s ! i)) ref (length tlat) (length tlon)"
proof -
  from step obtain original ref regridded where
    sel: "sel ts (data s) (ts ! i) = [original]" and f: "first = [ref]" and
    int: "interp s original tlat tlon = Inr regridded" and
    add: "np_add regridded (zero_times (squeeze ref)) = Inr v"
    by (auto simp: regrid_step_Inr)
  note len = wf_gridD(1)[OF s]
  show "length (filter (\<lambda>y. y = ts ! i) ts) = 1" using sel_single(2)[OF sel i len] .
  have orig: "original = data s ! i" using sel_single(1)[OF sel i len] .
  from int show ax: "axes_ok slat slon tlat tlon" using s(3,4) by (simp add: interp_Inr_iff)
  have reg: "regridded = interp2 slat slon tlat tlon (data s ! i)"
    using int s(3,4) orig by (simp add: interp_Inr_iff)
  have pos: "0 < length tlat" "0 < length tlon" using ax by (simp_all add: axes_ok_def)
  have rr: "rect (length tlat) (length tlon) regridded" using reg rect_interp2 by simp
  have rf: "rect (length tlat) (length tlon) ref" using first f by simp
  show al: "\<not> (length tlon = 1 \<and> 2 \<le> length tlat)"
  proof
    assume bad: "length tlon = 1 \<and> 2 \<le> length tlat"
    then obtain w where "np_add regridded (zero_times (squeeze ref)) = Inr w"
      "\<not> fits (length tlat) 1 w"
      using np_add_misaligned[of "length tlat" regridded ref] rr rf by auto
    with add fits bad show False by simp
  qed
  have "v = masked regridded ref (length tlat) (length tlon)"
    using np_add_aligned[OF rr rf pos al] add by simp
  then show "\<exists>ref. first = [ref] \<and>
           v = masked (interp2 slat slon tlat tlon (data s ! i)) ref (length tlat) (length tlon)"
    using f reg by simp
qed

subsection \<open>The loop as a whole: what \<open>regrid_data\<close> returns, and when\<close>

lemma regrid_array_unfold:
  assumes "time t = Some (t0 # tts)" "latitude t = Some tlat" "longitude t = Some tlon"
    "time s = Some ts"
  shows "regrid_array s t =
     regrid_loop s ts (sel (t0 # tts) (data t) t0) tlat tlon (enumerate 0 ts)
       (np_empty (length tlat) (length tlon) (length ts))"
  using assms by (simp add: regrid_array_def)

lemma regrid_array_sound:
  assumes s: "wf_grid s" "time s = Some ts" "latitude s = Some slat" "longitude s = Some slon"
    and t: "wf_grid t" "time t = Some (t0 # tts)" "latitude t = Some tlat" "longitude t = Some tlon"
    and run: "regrid_array s t = Inr arr"
  shows "steps_ok ts (t0 # tts) slat slon tlat tlon"
    and "arr = regrid_cells ts slat slon tlat tlon (data s) (hd (data t))"
proof -
  let ?n = "length tlat" and ?m = "length tlon" and ?first = "sel (t0 # tts) (data t) t0"
  have loop: "regrid_loop s ts ?first tlat tlon (enumerate 0 ts) (np_empty ?n ?m (length ts)) = Inr arr"
    using run regrid_array_unfold[OF t(2-4) s(2)] by simp
  note inv = regrid_loop_inv[OF loop shape3_np_empty, simplified]
  have sh: "shape3 ?n ?m (length ts) arr" using inv by simp
  have tlen: "length (data t) = length (t0 # tts)" using wf_gridD(1)[OF t(1-4)] .
  have first: "rect ?n ?m ref" if "?first = [ref]" for ref
    using sel_first_hd[OF tlen that] wf_grid_hd[OF t(1-4)] by simp
  have pass: "\<exists>v. regrid_step s ts ?first tlat tlon (ts ! i) = Inr v \<and> fits ?n ?m v \<and>
       (\<forall>a<?n. \<forall>b<?m. arr ! a ! b ! i = bc_nth (bc_nth v a) b)" if "i < length ts" for i
    using inv that by simp
  have each: "length (filter (\<lambda>y. y = ts ! i) ts) = 1 \<and> axes_ok slat slon tlat tlon \<and>
       \<not> (?m = 1 \<and> 2 \<le> ?n) \<and> ?first = [hd (data t)] \<and>
       (\<forall>a<?n. \<forall>b<?m. arr ! a ! b ! i =
          cadd (interp2 slat slon tlat tlon (data s ! i) ! a ! b) (cmul (Some 0) (hd (data t) ! a ! b)))"
    if i: "i < length ts" for i
  proof -
    from pass[OF i] obtain v where
      step: "regrid_step s ts ?first tlat tlon (ts ! i) = Inr v" and
      fits: "fits ?n ?m v" and
      cells: "\<And>a b. a < ?n \<Longrightarrow> b < ?m \<Longrightarrow> arr ! a ! b ! i = bc_nth (bc_nth v a) b"
      by blast
    note r = regrid_step_inv[OF s first i step fits]
    from r(4) obtain ref where ref: "?first = [ref]"
      "v = masked (interp2 slat slon tlat tlon (data s ! i)) ref ?n ?m" by blast
    have hd: "ref = hd (data t)" using sel_first_hd[OF tlen ref(1)] .
    have vr: "rect ?n ?m v" using ref(2) rect_masked by simp
    have "arr ! a ! b ! i =
          cadd (interp2 slat slon tlat tlon (data s ! i) ! a ! b) (cmul (Some 0) (hd (data t) ! a ! b))"
      if ab: "a < ?n" "b < ?m" for a b
    proof -
      have "bc_nth (bc_nth v a) b = v ! a ! b"
        using ab rect_length[OF vr] rect_nth[OF vr ab(1)] by (simp add: bc_nth_eq)
      then show ?thesis using cells[OF ab] ref(2) hd masked_nth[OF ab] by simp
    qed
    then show ?thesis using r(1-3) ref(1) hd by simp
  qed
  show "steps_ok ts (t0 # tts) slat slon tlat tlon"
  proof (cases "ts = []")
    case True
    then show ?thesis by (simp add: steps_ok_def)
  next
    case False
    then have 0: "0 < length ts" by simp
    have d: "distinct ts" using each by (intro filter_eq_single_distinct) blast
    have "t0 \<notin> set tts" using each[OF 0] sel_first[OF tlen] by auto
    then show ?thesis using d each[OF 0] by (simp add: steps_ok_def)
  qed
  show "arr = regrid_cells ts slat slon tlat tlon (data s) (hd (data t))"
  proof (rule shape3_eqI[OF sh shape3_regrid_cells])
    fix a b i assume "a < ?n" "b < ?m" "i < length ts"
    then show "arr ! a ! b ! i =
        regrid_cells ts slat slon tlat tlon (data s) (hd (data t)) ! a ! b ! i"
      using each by (simp add: regrid_cells_def)
  qed
qed

lemma regrid_array_complete:
  assumes s: "wf_grid s" "time s = Some ts" "latitude s = Some slat" "longitude s = Some slon"
    and t: "wf_grid t" "time t = Some (t0 # tts)" "latitude t = Some tlat" "longitude t = Some tlon"
    and ok: "steps_ok ts (t0 # tts) slat slon tlat tlon"
  shows "regrid_array s t = Inr (regrid_cells ts slat slon tlat tlon (data s) (hd (data t)))"
proof -
  let ?n = "length tlat" and ?m = "length tlon" and ?first = "sel (t0 # tts) (data t) t0"
  have tlen: "length (data t) = length (t0 # tts)" using wf_gridD(1)[OF t(1-4)] .
  have "\<exists>v. regrid_step s ts ?first tlat tlon tau = Inr v \<and> fits ?n ?m v"
    if tau: "tau \<in> set ts" for tau
  proof -
    from tau have ne: "ts \<noteq> []" by auto
    with ok have d: "distinct ts" and u: "t0 \<notin> set tts" and ax: "axes_ok slat slon tlat tlon"
      and al: "\<not> (?m = 1 \<and> 2 \<le> ?n)" by (simp_all add: steps_ok_def)
    from u obtain ref where ref: "?first = [ref]" using sel_first[OF tlen] by blast
    have rr: "rect ?n ?m ref" using sel_first_hd[OF tlen ref] wf_grid_hd[OF t(1-4)] by simp
    from tau obtain i where i: "i < length ts" "tau = ts ! i" by (auto simp: in_set_conv_nth)
    have "regrid_step s ts ?first tlat tlon tau =
          Inr (masked (interp2 slat slon tlat tlon (data s ! i)) ref ?n ?m)"
      using regrid_step_ok[OF s rr d ax al i(1)] ref i(2) by simp
    moreover have "fits ?n ?m (masked (interp2 slat slon tlat tlon (data s ! i)) ref ?n ?m)"
      using ax by (intro fits_rect rect_masked) (simp add: axes_ok_def)
    ultimately show ?thesis by blast
  qed
  then obtain arr where
    "regrid_loop s ts ?first tlat tlon (enumerate 0 ts) (np_empty ?n ?m (length ts)) = Inr arr"
    using regrid_loop_total[of ts s ts ?first tlat tlon 0] by blast
  then have run: "regrid_array s t = Inr arr"
    using regrid_array_unfold[OF t(2-4) s(2)] by simp
  then show ?thesis using regrid_array_sound(2)[OF s t run] by simp
qed

lemma regrid_data_Inr_iff:
  assumes s: "wf_grid s" "time s = Some ts" "latitude s = Some slat" "longitude s = Some slon"
    and t: "wf_grid t" "time t = Some tts" "latitude t = Some tlat" "longitude t = Some tlon"
  shows "regrid_data s t = Inr r \<longleftrightarrow>
     tts \<noteq> [] \<and> steps_ok ts tts slat slon tlat tlon \<and>
     (\<exists>n. name s = Some n \<and>
        r = \<lparr> var_name = n @ ''_REGRIDDED'',
              var_dims = [''latitude'', ''longitude'', ''time''],
              var_data = regrid_cells ts slat slon tlat tlon (data s) (hd (data t)),
              ds_latitude = tlat, ds_longitude = tlon, ds_time = ts \<rparr>)"
proof (cases tts)
  case Nil
  then show ?thesis using t(2) by (simp add: regrid_data_def regrid_array_def)
next
  case (Cons t0 rest)
  note t' = t(1) t(2)[unfolded Cons] t(3,4)
  show ?thesis
  proof (cases "steps_ok ts tts slat slon tlat tlon")
    case True
    then show ?thesis
      using regrid_array_complete[OF s t'] s(2) t(3,4) Cons
      by (auto simp: regrid_data_def assemble_def split: option.splits)
  next
    case False
    then have "\<And>arr. regrid_array s t \<noteq> Inr arr"
      using regrid_array_sound(1)[OF s t'] Cons by blast
    then show ?thesis using False by (auto simp: regrid_data_def split: sum.splits)
  qed
qed

lemma wf_grid_coords:
  "wf_grid g \<Longrightarrow> \<exists>ts las los. time g = Some ts \<and> latitude g = Some las \<and> longitude g = Some los"
  by (auto simp: wf_grid_def split: option.splits)

lemma regrid_data_total:
  assumes "wf_grid s" "wf_grid t"
  shows "(\<exists>r. regrid_data s t = Inr r) \<longleftrightarrow> valid_pair s t"
proof -
  from wf_grid_coords[OF assms(1)] obtain ts slat slon where
    s: "time s = Some ts" "latitude s = Some slat" "longitude s = Some slon" by blast
  from wf_grid_coords[OF assms(2)] obtain tts tlat tlon where
    t: "time t = Some tts" "latitude t = Some tlat" "longitude t = Some tlon" by blast
  show ?thesis
    using regrid_data_Inr_iff[OF assms(1) s assms(2) t] assms s t
    by (auto simp: valid_pair_def)
qed

lemma regrid_data_cell:
  assumes v: "valid_pair s t" and r: "regrid_data s t = Inr r"
    and s: "time s = Some ts" "latitude s = Some slat" "longitude s = Some slon"
    and t: "latitude t = Some tlat" "longitude t = Some tlon"
    and i: "a < length tlat" "b < length tlon" "i < length ts"
  shows "axes_ok slat slon tlat tlon"
    and "var_data r ! a ! b ! i =
      cadd (interp2 slat slon tlat tlon (data s ! i) ! a ! b) (cmul (Some 0) (hd (data t) ! a ! b))"
proof -
  have wf: "wf_grid s" "wf_grid t" using v by (simp_all add: valid_pair_def)
  from wf_grid_coords[OF wf(2)] t obtain tts where tt: "time t = Some tts" by auto
  note iff = regrid_data_Inr_iff[OF wf(1) s wf(2) tt t, of r]
  from iff r i(3) show "axes_ok slat slon tlat tlon" by (auto simp: steps_ok_def)
  from iff r have "var_data r = regrid_cells ts slat slon tlat tlon (data s) (hd (data t))"
    by auto
  then show "var_data r ! a ! b ! i =
      cadd (interp2 slat slon tlat tlon (data s ! i) ! a ! b) (cmul (Some 0) (hd (data t) ! a ! b))"
    using i by (simp add: regrid_cells_def)
qed


subsection \<open>Interpolation outside the source's bounds\<close>










subsection \<open>Interpolation onto the nodes of the source grid\<close>










subsection \<open>Time slices of the result\<close>

lemma time_slice_eqI:
  assumes sh: "shape3 n m k (var_data r)" and re: "rect n m s" and i: "i < k"
    and eq: "\<And>a b. a < n \<Longrightarrow> b < m \<Longrightarrow> var_data r ! a ! b ! i = s ! a ! b"
  shows "time_slice r i = s"
proof (rule nth_equalityI)
  show "length (time_slice r i) = length s"
    using sh re by (simp add: time_slice_def shape3_def rect_def)
next
  fix a assume "a < length (time_slice r i)"
  then have a: "a < n" using sh by (simp add: time_slice_def shape3_def)
  have la: "a < length (var_data r)" using a sh by (simp add: shape3_def)
  show "time_slice r i ! a = s ! a"
  proof (rule nth_equalityI)
    show "length (time_slice r i ! a) = length (s ! a)"
      using la shape3_nth(1)[OF sh a] rect_nth[OF re a] by (simp add: time_slice_def)
  next
    fix b assume "b < length (time_slice r i ! a)"
    then have b: "b < m" using la shape3_nth(1)[OF sh a] by (simp add: time_slice_def)
    then show "time_slice r i ! a ! b = s ! a ! b"
      using la shape3_nth(1)[OF sh a] eq[OF a b] by (simp add: time_slice_def)
  qed
qed

lemma regrid_data_slice:
  assumes v: "valid_pair s t" and r: "regrid_data s t = Inr r"
    and s: "time s = Some ts" "latitude s = Some slat" "longitude s = Some slon"
    and t: "latitude t = Some tlat" "longitude t = Some tlon"
    and i: "i < length ts"
  shows "time_slice r i =
     masked (interp2 slat slon tlat tlon (data s ! i)) (hd (data t)) (length tlat) (length tlon)"
proof -
  have wf: "wf_grid s" "wf_grid t" using v by (simp_all add: valid_pair_def)
  from wf_grid_coords[OF wf(2)] t obtain tts where tt: "time t = Some tts" by auto
  from regrid_data_Inr_iff[OF wf(1) s wf(2) tt t, of r] r
  have "var_data r = regrid_cells ts slat slon tlat tlon (data s) (hd (data t))" by auto
  then have sh: "shape3 (length tlat) (length tlon) (length ts) (var_data r)"
    using shape3_regrid_cells by simp
  show ?thesis
  proof (rule time_slice_eqI[OF sh rect_masked i])
    fix a b assume ab: "a < length tlat" "b < length tlon"
    show "var_data r ! a ! b ! i =
        masked (interp2 slat slon tlat tlon (data s ! i)) (hd (data t)) (length tlat) (length tlon) ! a ! b"
      using regrid_data_cell(2)[OF v r s t ab i] masked_nth[OF ab] by simp
  qed
qed


subsection \<open>Rearranging the time axis\<close>

lemma perm_length:
  assumes "distinct p" "set p = {0..<n}"
  shows "length p = n"
  using assms distinct_card[of p] by simp

lemma wf_grid_permute_time:
  assumes wf: "wf_grid s" and ts: "time s = Some ts" and p: "set p = {0..<length ts}"
  shows "wf_grid (permute_time p s)"
proof -
  from wf_grid_coords[OF wf] ts obtain las los where
    c: "latitude s = Some las" "longitude s = Some los" by auto
  have "rect (length las) (length los) (data s ! k)" if "k \<in> set p" for k
    using wf_gridD(2)[OF wf ts c, of k] that p by simp
  then show ?thesis using ts c
    by (simp add: wf_grid_def permute_time_def list_all_iff)
qed

lemma distinct_permuted:
  assumes "distinct ts" "distinct p" "set p = {0..<length ts}"
  shows "distinct (map (\<lambda>k. ts ! k) p)"
proof -
  have "inj_on (\<lambda>k. ts ! k) (set p)"
    using assms(1,3) by (auto simp: inj_on_def nth_eq_iff_index_eq)
  then show ?thesis using assms(2) by (simp add: distinct_map)
qed

lemma regrid_cells_nth:
  "a < length tlat \<Longrightarrow> b < length tlon \<Longrightarrow> i < length ts \<Longrightarrow>
   regrid_cells ts slat slon tlat tlon slabs ref ! a ! b ! i =
     cadd (interp2 slat slon tlat tlon (slabs ! i) ! a ! b) (cmul (Some 0) (ref ! a ! b))"
  by (simp add: regrid_cells_def)

lemma regrid_cells_permuted:
  assumes p: "set p = {0..<length ts}"
  shows "regrid_cells (map (\<lambda>k. ts ! k) p) slat slon tlat tlon (map (\<lambda>k. slabs ! k) p) ref =
         map (map (\<lambda>c. map (\<lambda>k. c ! k) p)) (regrid_cells ts slat slon tlat tlon slabs ref)"
    (is "?l = ?r")
proof (rule shape3_eqI)
  show "shape3 (length tlat) (length tlon) (length p) ?l"
    using shape3_regrid_cells[of tlat tlon "map (\<lambda>k. ts ! k) p"] by simp
  show "shape3 (length tlat) (length tlon) (length p) ?r"
    using shape3_regrid_cells[of tlat tlon ts slat slon slabs ref]
    by (simp add: shape3_def list_all_iff)
next
  fix a b i assume abi: "a < length tlat" "b < length tlon" "i < length p"
  then have k: "p ! i < length ts" using p nth_mem[of i p] by simp
  have sh: "shape3 (length tlat) (length tlon) (length ts) (regrid_cells ts slat slon tlat tlon slabs ref)"
    using shape3_regrid_cells .
  have la: "a < length (regrid_cells ts slat slon tlat tlon slabs ref)"
    using sh abi(1) by (simp add: shape3_def)
  have lb: "b < length (regrid_cells ts slat slon tlat tlon slabs ref ! a)"
    using shape3_nth(1)[OF sh abi(1)] abi(2) by simp
  have "?l ! a ! b ! i =
      cadd (interp2 slat slon tlat tlon (slabs ! (p ! i)) ! a ! b) (cmul (Some 0) (ref ! a ! b))"
    using regrid_cells_nth[of a tlat b tlon i "map (\<lambda>k. ts ! k) p"] abi by simp
  moreover have "?r ! a ! b ! i = regrid_cells ts slat slon tlat tlon slabs ref ! a ! b ! (p ! i)"
    using la lb abi(3) by simp
  ultimately show "?l ! a ! b ! i = ?r ! a ! b ! i"
    using regrid_cells_nth[OF abi(1,2) k] by simp
qed

subsection \<open>A target that is a single column\<close>


subsection \<open>The routine on a store: the loop writes into the new array only\<close>

lemma regrid_loop_heap_sim:
  assumes "a < length h" "h ! a = Buffer arr"
  shows "case regrid_loop s ts first tlat tlon pairs arr of
           Inl e \<Rightarrow> (\<exists>h'. regrid_loop_heap s ts first tlat tlon a pairs h = (h', Some e) \<and>
                       length h' = length h \<and> (\<forall>b<length h. b \<noteq> a \<longrightarrow> h' ! b = h ! b))
         | Inr arr' \<Rightarrow> regrid_loop_heap s ts first tlat tlon a pairs h = (h[a := Buffer arr'], None)"
  using assms
proof (induction pairs arbitrary: h arr)
  case Nil
  then have "h[a := Buffer arr] = h" using list_update_id[of h a] by simp
  then show ?case by simp
next
  case (Cons pt pairs)
  obtain i t where pt: "pt = (i, t)" by (cases pt)
  show ?case
  proof (cases "regrid_step s ts first tlat tlon t")
    case (Inl e)
    then show ?thesis using pt by simp
  next
    case (Inr v)
    show ?thesis
    proof (cases "store (length tlat) (length tlon) arr i v")
      case (Inl e)
      then show ?thesis using pt Inr Cons.prems by simp
    next
      case st: (Inr arr1)
      let ?h1 = "h[a := Buffer arr1]"
      have h1: "a < length ?h1" "?h1 ! a = Buffer arr1" using Cons.prems by simp_all
      note IH = Cons.IH[OF h1]
      have heap: "regrid_loop_heap s ts first tlat tlon a (pt # pairs) h =
                  regrid_loop_heap s ts first tlat tlon a pairs ?h1"
        using pt Inr st Cons.prems by simp
      have pure: "regrid_loop s ts first tlat tlon (pt # pairs) arr =
                  regrid_loop s ts first tlat tlon pairs arr1"
        using pt Inr st by simp
      show ?thesis
      proof (cases "regrid_loop s ts first tlat tlon pairs arr1")
        case (Inl e)
        with IH obtain h' where h': "regrid_loop_heap s ts first tlat tlon a pairs ?h1 = (h', Some e)"
          "length h' = length ?h1" "\<forall>b<length ?h1. b \<noteq> a \<longrightarrow> h' ! b = ?h1 ! b" by auto
        then show ?thesis using heap pure Inl by auto
      next
        case (Inr arr')
        with IH show ?thesis using heap pure by simp
      qed
    qed
  qed
qed

lemma regrid_data_heap_unfold:
  assumes "h ! input_ref = Grid s" "h ! target_ref = Grid t"
    and "time t = Some (t0 # rest)" "latitude t = Some tlat" "longitude t = Some tlon"
    and "time s = Some ts"
  shows "regrid_data_heap input_ref target_ref h =
     (case regrid_loop_heap s ts (sel (t0 # rest) (data t) t0) tlat tlon (length h)
             (enumerate 0 ts) (h @ [Buffer (np_empty (length tlat) (length tlon) (length ts))]) of
        (h2, Some e) \<Rightarrow> (h2, Inl e)
      | (h2, None) \<Rightarrow>
          (case h2 ! length h of
             Buffer arr \<Rightarrow>
               (case assemble s t arr of
                  Inl e \<Rightarrow> (h2, Inl e)
                | Inr regridded_data \<Rightarrow>
                    (let (h3, result_ref) = alloc h2 (Result regridded_data)
                     in (h3, Inr result_ref)))
           | _ \<Rightarrow> (h2, Inl TypeError)))"
  using assms by (simp add: regrid_data_heap_def alloc_def)

lemma regrid_data_heap_early:
  assumes "h ! input_ref = Grid s" "h ! target_ref = Grid t"
    and "time t = None \<or> time t = Some [] \<or> latitude t = None \<or> longitude t = None \<or>
         time s = None"
  shows "\<exists>e. regrid_data_heap input_ref target_ref h = (h, Inl e) \<and> regrid_data s t = Inl e"
  using assms
  by (auto simp: regrid_data_heap_def regrid_data_def regrid_array_def
      split: option.splits list.splits)

subsection \<open>Which errors come from where\<close>













subsection \<open>The example grids\<close>


lemma ex_run: "regrid_data ex_source ex_target = Inr ex_result"
  unfolding ex_result_def by code_simp

lemma ex_wf: "wf_grid ex_source" "wf_grid ex_target"
  by (simp_all add: ex_source_def ex_target_def wf_grid_def rect_def)




lemma ex_run_heap:
  "regrid_data_heap 0 1 ex_heap =
     (ex_heap @ [Buffer (var_data ex_result), Result ex_result], Inr 3)"
  unfolding ex_result_def by code_simp

section \<open>The claims\<close>

text \<open>
  C10. A source whose name is unset never gives a result: the assembly of the result raises
  \<^verbatim>\<open>TypeError\<close> on \<^verbatim>\<open>input_data.name + "_REGRIDDED"\<close> whatever array it is given, so that
  \<open>regrid_data\<close> ends with the error of the loop if the loop fails and with that
  \<^verbatim>\<open>TypeError\<close> otherwise.
\<close>

theorem unnamed_source_raises:
  "name s = None \<Longrightarrow>
     (\<forall>arr. assemble s t arr = Inl TypeError) \<and>
     regrid_data s t = (case regrid_array s t of Inl e \<Rightarrow> Inl e | Inr arr \<Rightarrow> Inl TypeError)"
  by (simp add: regrid_data_def assemble_def split: sum.splits)

theorem unnamed_source_raises_witness:
  "name (ex_source\<lparr>name := None\<rparr>) = None \<and>
   (\<exists>arr. regrid_array (ex_source\<lparr>name := None\<rparr>) ex_target = Inr arr) \<and>
   regrid_data (ex_source\<lparr>name := None\<rparr>) ex_target = Inl TypeError"
proof -
  have h: "name (ex_source\<lparr>name := None\<rparr>) = None" by simp
  have a: "regrid_array (ex_source\<lparr>name := None\<rparr>) ex_target =
      Inr [[[Some 1, Some 5], [Some 2, Some 6]], [[None, None], [Some 4, Some 8]]]"
    by code_simp
  show ?thesis using unnamed_source_raises[OF h, of ex_target] a by simp
qed







text \<open>
  C4. The end-to-end scenario: a 2 by 2 source over latitudes and longitudes 0 and 1 with the
  slabs 1 2 / 3 4 at \<open>t0\<close> and 5 6 / 7 8 at \<open>t1\<close> (two different timestamps), and a target
  on the same grid with one timestep and the slab 1 1 / NaN 1, give a result on the same
  grid with the time axis \<open>t0, t1\<close>, the slabs 1 2 / NaN 4 and 5 6 / NaN 8, and the source's
  name followed by \<^verbatim>\<open>_REGRIDDED\<close>.
\<close>

theorem end_to_end_scenario:
  assumes "t0 \<noteq> t1"
  shows "\<exists>r. regrid_data
       \<lparr> name = Some n, time = Some [t0, t1], latitude = Some [0, 1], longitude = Some [0, 1],
         data = [[[Some 1, Some 2], [Some 3, Some 4]], [[Some 5, Some 6], [Some 7, Some 8]]] \<rparr>
       \<lparr> name = m, time = Some [t], latitude = Some [0, 1], longitude = Some [0, 1],
         data = [[[Some 1, Some 1], [None, Some 1]]] \<rparr> = Inr r \<and>
     ds_latitude r = [0, 1] \<and> ds_longitude r = [0, 1] \<and> ds_time r = [t0, t1] \<and>
     time_slice r 0 = [[Some 1, Some 2], [None, Some 4]] \<and>
     time_slice r 1 = [[Some 5, Some 6], [None, Some 8]] \<and>
     var_name r = n @ ''_REGRIDDED''"
proof -
  let ?s = "\<lparr> name = Some n, time = Some [t0, t1], latitude = Some [0, 1], longitude = Some [0, 1],
         data = [[[Some 1, Some 2], [Some 3, Some 4]], [[Some 5, Some 6], [Some 7, Some 8]]] \<rparr>"
  let ?t = "\<lparr> name = m, time = Some [t], latitude = Some [0, 1], longitude = Some [0, 1],
         data = [[[Some 1, Some 1], [None, Some 1]]] \<rparr>"
  have wf: "wf_grid ?s" "wf_grid ?t" by (simp_all add: wf_grid_def rect_def)
  have ok: "steps_ok [t0, t1] [t] [0, 1] [0, 1] [0, 1] [0, 1]"
    using assms by (simp add: steps_ok_def axes_ok_def)
  have cells: "regrid_cells [t0, t1] [0, 1] [0, 1] [0, 1] [0, 1]
        [[[Some 1, Some 2], [Some 3, Some 4]], [[Some 5, Some 6], [Some 7, Some 8]]]
        [[Some 1, Some 1], [None, Some 1]]
      = [[[Some 1, Some 5], [Some 2, Some 6]], [[None, None], [Some 4, Some 8]]]"
    by code_simp
  have "regrid_data ?s ?t = Inr \<lparr> var_name = n @ ''_REGRIDDED'',
              var_dims = [''latitude'', ''longitude'', ''time''],
              var_data = [[[Some 1, Some 5], [Some 2, Some 6]], [[None, None], [Some 4, Some 8]]],
              ds_latitude = [0, 1], ds_longitude = [0, 1], ds_time = [t0, t1] \<rparr>"
    using regrid_data_Inr_iff[OF wf(1) _ _ _ wf(2), of "[t0, t1]" "[0, 1]" "[0, 1]" "[t]" "[0, 1]" "[0, 1]"]
      ok cells by simp
  then show ?thesis by (simp add: time_slice_def)
qed

theorem end_to_end_scenario_witness:
  "(2000::int) \<noteq> 2001 \<and>
   (\<exists>r. regrid_data ex_source ex_target = Inr r \<and>
     time_slice r 0 = [[Some 1, Some 2], [None, Some 4]] \<and>
     time_slice r 1 = [[Some 5, Some 6], [None, Some 8]])"
proof -
  have h: "(2000::int) \<noteq> 2001" by simp
  from end_to_end_scenario[OF h, of "''PM25_CMIP''" "Some ''PM25_VAND''" 1998]
  show ?thesis using h unfolding ex_source_def ex_target_def by blast
qed




text \<open>
  C7. For grids that have the shape of their axes and a list \<open>p\<close> that is a permutation of
  the positions of the source's time axis: if \<open>regrid_data\<close> returns \<open>r\<close> on the source,
  it returns on the rearranged source the result \<open>r\<close> rearranged in the same way, whose
  slab at position \<open>i\<close> is the slab of \<open>r\<close> at position \<open>p ! i\<close>; and the slab of \<open>r\<close>
  at a position is a function of the source's slab at that position, of the coordinates and
  of the reference slab only.
\<close>

theorem time_permutation:
  assumes wf: "wf_grid s" "wf_grid t"
    and ts: "time s = Some ts" and s: "latitude s = Some slat" "longitude s = Some slon"
    and tl: "latitude t = Some tlat" "longitude t = Some tlon"
    and p: "distinct p" "set p = {0..<length ts}"
    and r: "regrid_data s t = Inr r"
  shows "regrid_data (permute_time p s) t = Inr (permute_result p r) \<and>
     (\<forall>i<length p. time_slice (permute_result p r) i = time_slice r (p ! i)) \<and>
     (\<forall>i<length ts. time_slice r i =
        masked (interp2 slat slon tlat tlon (data s ! i)) (hd (data t)) (length tlat) (length tlon))"
proof -
  from wf_grid_coords[OF wf(2)] tl obtain tts where
    t: "time t = Some tts" "latitude t = Some tlat" "longitude t = Some tlon" by auto
  let ?s = "permute_time p s" and ?ts = "map (\<lambda>k. ts ! k) p"
  have wf': "wf_grid ?s" using wf_grid_permute_time[OF wf(1) ts p(2)] .
  have s': "time ?s = Some ?ts" "latitude ?s = Some slat" "longitude ?s = Some slon"
    "name ?s = name s" "data ?s = map (\<lambda>k. data s ! k) p"
    using ts s by (simp_all add: permute_time_def)
  from regrid_data_Inr_iff[OF wf(1) ts s wf(2) t, of r] r obtain n where
    ne: "tts \<noteq> []" and ok: "steps_ok ts tts slat slon tlat tlon" and n: "name s = Some n" and
    req: "r = \<lparr> var_name = n @ ''_REGRIDDED'',
              var_dims = [''latitude'', ''longitude'', ''time''],
              var_data = regrid_cells ts slat slon tlat tlon (data s) (hd (data t)),
              ds_latitude = tlat, ds_longitude = tlon, ds_time = ts \<rparr>"
    by auto
  have len: "length p = length ts" using perm_length[OF p] .
  have ok': "steps_ok ?ts tts slat slon tlat tlon"
  proof (cases "ts = []")
    case True
    then show ?thesis using len by (simp add: steps_ok_def)
  next
    case False
    then show ?thesis using ok distinct_permuted[OF _ p] by (simp add: steps_ok_def)
  qed
  have "permute_result p r = \<lparr> var_name = n @ ''_REGRIDDED'',
              var_dims = [''latitude'', ''longitude'', ''time''],
              var_data = regrid_cells ?ts slat slon tlat tlon (data ?s) (hd (data t)),
              ds_latitude = tlat, ds_longitude = tlon, ds_time = ?ts \<rparr>"
    using regrid_cells_permuted[OF p(2)] by (simp add: req permute_result_def s'(5))
  then have run: "regrid_data (permute_time p s) t = Inr (permute_result p r)"
    using regrid_data_Inr_iff[OF wf' s'(1-3) wf(2) t, of "permute_result p r"] ne ok' n s'(4)
    by simp
  have sl: "time_slice (permute_result p r) i = time_slice r (p ! i)" if "i < length p" for i
  proof -
    have "list_all (list_all (\<lambda>c. length c = length ts)) (var_data r)"
      using shape3_regrid_cells[of tlat tlon ts slat slon "data s" "hd (data t)"]
      by (simp add: req shape3_def list_all_iff)
    then show ?thesis using that
      by (simp add: time_slice_def permute_result_def list_all_iff)
  qed
  have v: "valid_pair s t" using regrid_data_total[OF wf] r by blast
  show ?thesis using run sl regrid_data_slice[OF v r ts s tl] by simp
qed

theorem time_permutation_witness:
  "wf_grid ex_source \<and> wf_grid ex_target \<and> distinct [1, 0 :: nat] \<and>
   set [1, 0 :: nat] = {0..<length [2000, 2001 :: int]} \<and>
   regrid_data ex_source ex_target = Inr ex_result \<and>
   regrid_data (permute_time [1, 0] ex_source) ex_target = Inr (permute_result [1, 0] ex_result) \<and>
   time (permute_time [1, 0] ex_source) = Some [2001, 2000] \<and>
   time_slice (permute_result [1, 0] ex_result) 0 = time_slice ex_result 1"
proof -
  have ts: "time ex_source = Some [2000, 2001]" by (simp add: ex_source_def)
  have d: "distinct [1, 0 :: nat]" by simp
  have st: "set [1, 0 :: nat] = {0..<length [2000, 2001 :: int]}" by auto
  have la: "latitude ex_source = Some [0, 1]" "longitude ex_source = Some [0, 1]"
    "latitude ex_target = Some [0, 1]" "longitude ex_target = Some [0, 1]"
    by (simp_all add: ex_source_def ex_target_def)
  have "regrid_data (permute_time [1, 0] ex_source) ex_target = Inr (permute_result [1, 0] ex_result)"
    using time_permutation[OF ex_wf ts la d st ex_run] by simp
  moreover have "time (permute_time [1, 0] ex_source) = Some [2001, 2000]"
    by (simp add: permute_time_def ex_source_def)
  moreover have "time_slice (permute_result [1, 0] ex_result) 0 = time_slice ex_result 1"
    by (simp add: time_slice_def permute_result_def ex_result_def)
  ultimately show ?thesis using ex_wf d st ex_run by simp
qed




text \<open>
  C8. Run on a store that holds the two input grids, the routine leaves every object that was
  in the store as it was, the two inputs among them (values, coordinates and names); what it
  adds are new objects behind them. Its outcome is that of \<open>regrid_data\<close> on the two grids:
  the same error, or a reference to a new object that holds the same result.
\<close>

theorem inputs_not_mutated:
  assumes refs: "input_ref < length h" "target_ref < length h"
    and objs: "h ! input_ref = Grid s" "h ! target_ref = Grid t"
    and run: "regrid_data_heap input_ref target_ref h = (h', res)"
  shows "take (length h) h' = h \<and> h' ! input_ref = Grid s \<and> h' ! target_ref = Grid t \<and>
     (case res of
        Inl e \<Rightarrow> regrid_data s t = Inl e
      | Inr result_ref \<Rightarrow>
          length h \<le> result_ref \<and>
          (\<exists>r. regrid_data s t = Inr r \<and> h' ! result_ref = Result r))"
proof -
  have frame: "h' ! input_ref = Grid s \<and> h' ! target_ref = Grid t" if "take (length h) h' = h"
  proof -
    have "h' ! b = h ! b" if "b < length h" for b
      using nth_take[of b "length h" h'] that \<open>take (length h) h' = h\<close> by simp
    then show ?thesis using refs objs by simp
  qed
  have main: "take (length h) h' = h \<and>
     (case res of
        Inl e \<Rightarrow> regrid_data s t = Inl e
      | Inr result_ref \<Rightarrow>
          length h \<le> result_ref \<and>
          (\<exists>r. regrid_data s t = Inr r \<and> h' ! result_ref = Result r))"
  proof (cases "time t = None \<or> time t = Some [] \<or> latitude t = None \<or> longitude t = None \<or>
         time s = None")
    case True
    from regrid_data_heap_early[OF objs True] run show ?thesis by auto
  next
    case False
    then obtain t0 rest tlat tlon ts where
      c: "time t = Some (t0 # rest)" "latitude t = Some tlat" "longitude t = Some tlon"
         "time s = Some ts"
      by (cases "time t"; cases "the (time t)"; cases "latitude t"; cases "longitude t";
          cases "time s") auto
    let ?a = "length h"
    let ?first = "sel (t0 # rest) (data t) t0"
    let ?empty = "np_empty (length tlat) (length tlon) (length ts)"
    let ?h1 = "h @ [Buffer ?empty]"
    have h1: "?a < length ?h1" "?h1 ! ?a = Buffer ?empty" by simp_all
    note sim = regrid_loop_heap_sim[OF h1, of s ts ?first tlat tlon "enumerate 0 ts"]
    note unf = regrid_data_heap_unfold[OF objs c]
    have arr: "regrid_array s t = regrid_loop s ts ?first tlat tlon (enumerate 0 ts) ?empty"
      using regrid_array_unfold[OF c] .
    show ?thesis
    proof (cases "regrid_loop s ts ?first tlat tlon (enumerate 0 ts) ?empty")
      case (Inl e)
      with sim obtain h2 where h2:
        "regrid_loop_heap s ts ?first tlat tlon ?a (enumerate 0 ts) ?h1 = (h2, Some e)"
        "length h2 = length ?h1" "\<forall>b<length ?h1. b \<noteq> ?a \<longrightarrow> h2 ! b = ?h1 ! b" by auto
      have res: "h' = h2" "res = Inl e" using run unf h2(1) by simp_all
      have "take ?a h2 = h"
        using h2(2,3) by (intro nth_equalityI) (auto simp: nth_append)
      moreover have "regrid_data s t = Inl e" using arr Inl by (simp add: regrid_data_def)
      ultimately show ?thesis using res by simp
    next
      case (Inr arr')
      with sim have h2:
        "regrid_loop_heap s ts ?first tlat tlon ?a (enumerate 0 ts) ?h1 = (?h1[?a := Buffer arr'], None)"
        by simp
      let ?h2 = "?h1[?a := Buffer arr']"
      have at: "?h2 ! ?a = Buffer arr'" by simp
      have tk: "take ?a ?h2 = h" by simp
      show ?thesis
      proof (cases "assemble s t arr'")
        case (Inl e)
        have res: "h' = ?h2" "res = Inl e" using run unf h2 at Inl by simp_all
        have "regrid_data s t = Inl e" using arr Inr Inl by (simp add: regrid_data_def)
        then show ?thesis using res tk by simp
      next
        case as: (Inr ds)
        have res: "h' = ?h2 @ [Result ds]" "res = Inr (length ?h2)"
          using run unf h2 at as by (simp_all add: alloc_def)
        have "regrid_data s t = Inr ds" using arr Inr as by (simp add: regrid_data_def)
        moreover have "(?h2 @ [Result ds]) ! length ?h2 = Result ds" by (rule nth_append_length)
        ultimately show ?thesis using res tk by simp
      qed
    qed
  qed
  then show ?thesis using frame by simp
qed

theorem inputs_not_mutated_witness:
  "(0::nat) < length ex_heap \<and> (1::nat) < length ex_heap \<and>
   ex_heap ! 0 = Grid ex_source \<and> ex_heap ! 1 = Grid ex_target \<and>
   regrid_data_heap 0 1 ex_heap =
     (ex_heap @ [Buffer (var_data ex_result), Result ex_result], Inr 3) \<and>
   take (length ex_heap) (ex_heap @ [Buffer (var_data ex_result), Result ex_result]) = ex_heap \<and>
   (ex_heap @ [Buffer (var_data ex_result), Result ex_result]) ! 0 = Grid ex_source \<and>
   (ex_heap @ [Buffer (var_data ex_result), Result ex_result]) ! 1 = Grid ex_target"
proof -
  have r: "(0::nat) < length ex_heap" "(1::nat) < length ex_heap" by (simp_all add: ex_heap_def)
  have o: "ex_heap ! 0 = Grid ex_source" "ex_heap ! 1 = Grid ex_target"
    by (simp_all add: ex_heap_def)
  from inputs_not_mutated[OF r o ex_run_heap] show ?thesis using r o ex_run_heap by simp
qed




end
